theory Spec2Isabelle
  imports Complex_Main
begin

section \<open>The music player's state (frontend/src/App.jsx)\<close>

text \<open>
  A track is the object literal \<^verbatim>\<open>{ id, title, url }\<close> that the upload handler builds.
  The field \<^verbatim>\<open>id\<close> is called \<open>track_id\<close> here, since \<open>id\<close> is the identity function of HOL.
\<close>

record track =
  track_id :: string
  title :: string
  url :: string

text \<open>
  A browser \<^verbatim>\<open>File\<close>: its name, and a number standing for the identity of the object, so
  that two files of the same name stay different.
\<close>

record js_file =
  file_name :: string
  file_obj :: nat

text \<open>The strings \<^verbatim>\<open>'off'\<close>, \<^verbatim>\<open>'all'\<close> and \<^verbatim>\<open>'one'\<close> of \<^verbatim>\<open>repeatMode\<close>.\<close>

datatype repeat_mode = RepeatOff | RepeatAll | RepeatOne

text \<open>
  The component state of \<^verbatim>\<open>App\<close>, one field for each \<^verbatim>\<open>useState\<close> that the handlers below
  read or write, and \<open>audioRef\<close> for \<^verbatim>\<open>audioRef.current\<close>: \<open>None\<close> is \<^verbatim>\<open>null\<close>, and
  \<open>Some t\<close> is the audio element whose \<^verbatim>\<open>currentTime\<close> is \<open>t\<close> seconds.
  \<^verbatim>\<open>currentIndex\<close> is \<^verbatim>\<open>null\<close> (\<open>None\<close>) or a number. The volume and the time are JavaScript
  numbers that the handlers only compare and assign; they are modelled by the real numbers
  they denote. The display state \<^verbatim>\<open>currentTime\<close>/\<^verbatim>\<open>duration\<close> of the progress bar is written
  by the \<^verbatim>\<open>timeupdate\<close> listener only and is left out.
\<close>

record app_state =
  tracks :: "track list"
  currentIndex :: "int option"
  isPlaying :: bool
  shuffle :: bool
  repeatMode :: repeat_mode
  volume :: real
  audioRef :: "real option"

definition initial_state :: app_state where
  "initial_state =
     \<lparr>tracks = [], currentIndex = None, isPlaying = False, shuffle = False,
      repeatMode = RepeatOff, volume = 8 / 10, audioRef = None\<rparr>"

section \<open>What a handler does: state setter calls and calls on the audio element\<close>

text \<open>
  A handler reads the state of the render it was created in and calls state setters and
  methods of the audio element. Each constructor is one such call as it is written in
  the source:
  \<^item> \<open>SetTracks d\<close>: \<^verbatim>\<open>setTracks(data)\<close>;
  \<^item> \<open>SetTracksAppend n\<close>: \<^verbatim>\<open>setTracks((prev) => [...prev, ...n])\<close>;
  \<^item> \<open>SetTracksFilter j\<close>: \<^verbatim>\<open>setTracks((prev) => prev.filter((_, i) => i !== j))\<close>;
  \<^item> \<open>SetCurrentIndex v\<close>: \<^verbatim>\<open>setCurrentIndex(v)\<close>;
  \<^item> \<open>SetCurrentIndexDec\<close>: \<^verbatim>\<open>setCurrentIndex((i) => i - 1)\<close>;
  \<^item> \<open>SetIsPlaying b\<close>: \<^verbatim>\<open>setIsPlaying(b)\<close>;
  \<^item> \<open>SetIsPlayingNot\<close>: \<^verbatim>\<open>setIsPlaying((p) => !p)\<close>;
  \<^item> \<open>SetShuffleNot\<close>: \<^verbatim>\<open>setShuffle((s) => !s)\<close>;
  \<^item> \<open>SetRepeatModeCycle\<close>: the \<^verbatim>\<open>setRepeatMode\<close> call of \<^verbatim>\<open>toggleRepeatMode\<close>;
  \<^item> \<open>SetVolume v\<close>: \<^verbatim>\<open>setVolume(v)\<close>;
  \<^item> \<open>SetVolumeMute\<close>: \<^verbatim>\<open>setVolume((v) => (v > 0 ? 0 : 0.8))\<close>;
  \<^item> \<open>AudioSetCurrentTime t\<close>: \<^verbatim>\<open>audio.currentTime = t\<close>;
  \<^item> \<open>AudioPlay\<close>: \<^verbatim>\<open>audio.play()\<close>, whose rejection is swallowed by \<^verbatim>\<open>.catch(() => {})\<close>.
\<close>

datatype effect =
    SetTracks "track list"
  | SetTracksAppend "track list"
  | SetTracksFilter int
  | SetCurrentIndex "int option"
  | SetCurrentIndexDec
  | SetIsPlaying bool
  | SetIsPlayingNot
  | SetShuffleNot
  | SetRepeatModeCycle
  | SetVolume real
  | SetVolumeMute
  | AudioSetCurrentTime real
  | AudioPlay

text \<open>\<^verbatim>\<open>prev.filter((_, i) => i !== index)\<close>: keep the elements whose position is not \<open>index\<close>.\<close>

definition filterIndex :: "int \<Rightarrow> 'a list \<Rightarrow> 'a list" where
  "filterIndex index prev = map snd (filter (\<lambda>(i, _). int i \<noteq> index) (enumerate 0 prev))"

text \<open>The updater of \<^verbatim>\<open>toggleRepeatMode\<close>: off, all, one, off.\<close>

fun cycleRepeat :: "repeat_mode \<Rightarrow> repeat_mode" where
  "cycleRepeat RepeatOff = RepeatAll"
| "cycleRepeat RepeatAll = RepeatOne"
| "cycleRepeat m = RepeatOff"

text \<open>The updater of the mute button: \<^verbatim>\<open>(v) => (v > 0 ? 0 : 0.8)\<close>.\<close>

definition muteToggle :: "real \<Rightarrow> real" where
  "muteToggle v = (if v > 0 then 0 else 8 / 10)"

text \<open>
  The number that \<^verbatim>\<open>currentIndex\<close> is converted to by \<^verbatim>\<open><\<close> and \<^verbatim>\<open>-\<close>:
  \<^verbatim>\<open>null\<close> becomes \<open>0\<close>.
\<close>

fun toNumber :: "int option \<Rightarrow> int" where
  "toNumber None = 0"
| "toNumber (Some n) = n"

text \<open>
  The state after one call. Setter calls of one handler are applied by React in the order
  they were made; \<open>AudioPlay\<close> changes nothing the handlers read.
\<close>

fun apply_effect :: "effect \<Rightarrow> app_state \<Rightarrow> app_state" where
  "apply_effect (SetTracks d) s = s\<lparr>tracks := d\<rparr>"
| "apply_effect (SetTracksAppend n) s = s\<lparr>tracks := tracks s @ n\<rparr>"
| "apply_effect (SetTracksFilter j) s = s\<lparr>tracks := filterIndex j (tracks s)\<rparr>"
| "apply_effect (SetCurrentIndex v) s = s\<lparr>currentIndex := v\<rparr>"
| "apply_effect SetCurrentIndexDec s = s\<lparr>currentIndex := Some (toNumber (currentIndex s) - 1)\<rparr>"
| "apply_effect (SetIsPlaying b) s = s\<lparr>isPlaying := b\<rparr>"
| "apply_effect SetIsPlayingNot s = s\<lparr>isPlaying := \<not> isPlaying s\<rparr>"
| "apply_effect SetShuffleNot s = s\<lparr>shuffle := \<not> shuffle s\<rparr>"
| "apply_effect SetRepeatModeCycle s = s\<lparr>repeatMode := cycleRepeat (repeatMode s)\<rparr>"
| "apply_effect (SetVolume v) s = s\<lparr>volume := v\<rparr>"
| "apply_effect SetVolumeMute s = s\<lparr>volume := muteToggle (volume s)\<rparr>"
| "apply_effect (AudioSetCurrentTime t) s = s\<lparr>audioRef := map_option (\<lambda>_. t) (audioRef s)\<rparr>"
| "apply_effect AudioPlay s = s"

definition commit :: "app_state \<Rightarrow> effect list \<Rightarrow> app_state" where
  "commit s es = fold apply_effect es s"

section \<open>The handlers\<close>

text \<open>
  \<^verbatim>\<open>API_BASE\<close> is a module constant (the empty string as shipped, the server's URL in server
  mode); the handlers take it as their first argument, and \<^verbatim>\<open>!API_BASE\<close> is
  \<open>API_BASE = ''''\<close>. What a \<^verbatim>\<open>fetch\<close> gives is an argument as well: \<open>None\<close> when the
  awaited promise rejects (the \<^verbatim>\<open>catch\<close> branch), \<open>Some\<close> of the parsed body otherwise.
\<close>

text \<open>The mount effect that loads the library (lines 49-63).\<close>

definition loadLibrary :: "string \<Rightarrow> track list option \<Rightarrow> effect list" where
  "loadLibrary API_BASE response =
     (if API_BASE = '''' then []
      else (case response of
              None \<Rightarrow> []
            | Some data \<Rightarrow>
                SetTracks data # (if length data > 0 then [SetCurrentIndex (Some 0)] else [])))"

text \<open>
  \<^verbatim>\<open>handleUpload\<close> (lines 100-134). \<open>mkTrack\<close> stands for the object literal built from
  \<^verbatim>\<open>Date.now()\<close>, \<^verbatim>\<open>Math.random()\<close>, the file's name and \<^verbatim>\<open>URL.createObjectURL(file)\<close>.
\<close>

definition handleUpload ::
  "string \<Rightarrow> app_state \<Rightarrow> js_file list \<Rightarrow> (js_file \<Rightarrow> track) \<Rightarrow> track list option \<Rightarrow> effect list" where
  "handleUpload API_BASE s files mkTrack response =
     (if length files = 0 then []
      else if API_BASE = '''' then
        (let newTracks = map mkTrack files
         in SetTracksAppend newTracks #
            (if currentIndex s = None then [SetCurrentIndex (Some 0)] else []))
      else (case response of
              Some added \<Rightarrow>
                SetTracksAppend added #
                (if currentIndex s = None \<and> length added > 0 then [SetCurrentIndex (Some 0)]
                 else [])
            | None \<Rightarrow> []))"

text \<open>
  \<^verbatim>\<open>tracks[index]\<close>: \<^verbatim>\<open>undefined\<close> (\<open>None\<close>) outside of the array. A track is an object, so
  \<^verbatim>\<open>!track\<close> holds for \<^verbatim>\<open>undefined\<close> only.
\<close>

definition trackAt :: "track list \<Rightarrow> int \<Rightarrow> track option" where
  "trackAt ts index =
     (if 0 \<le> index \<and> index < int (length ts) then Some (ts ! nat index) else None)"

text \<open>
  \<^verbatim>\<open>handleRemove\<close> (lines 140-169). \<open>deleted\<close> tells whether the awaited DELETE request
  resolved; a response with an error status resolves too. The server branch compares
  \<^verbatim>\<open>index < currentIndex\<close> without the \<^verbatim>\<open>null\<close> check of the client branch.
\<close>

definition handleRemove :: "string \<Rightarrow> app_state \<Rightarrow> bool \<Rightarrow> int \<Rightarrow> effect list" where
  "handleRemove API_BASE s deleted index =
     (case trackAt (tracks s) index of
        None \<Rightarrow> []
      | Some track \<Rightarrow>
          if API_BASE = '''' then
            SetTracksFilter index #
            (case currentIndex s of
               None \<Rightarrow> []
             | Some c \<Rightarrow>
                 if index < c then [SetCurrentIndexDec]
                 else if index = c then [SetIsPlaying False, SetCurrentIndex None]
                 else [])
          else if deleted then
            SetTracksFilter index #
            (if index < toNumber (currentIndex s) then [SetCurrentIndexDec]
             else if Some index = currentIndex s then [SetIsPlaying False, SetCurrentIndex None]
             else [])
          else [])"

text \<open>\<^verbatim>\<open>handleSelect\<close> (lines 174-178).\<close>

definition handleSelect :: "app_state \<Rightarrow> int \<Rightarrow> effect list" where
  "handleSelect s index =
     (if index < 0 \<or> index \<ge> int (length (tracks s)) then []
      else [SetCurrentIndex (Some index), SetIsPlaying True])"


text \<open>
  \<^verbatim>\<open>handleNext\<close> (lines 198-221). \<open>pick\<close> is the result of
  \<^verbatim>\<open>Math.floor(Math.random() * tracks.length)\<close>, a natural number below the length. The
  operands of \<^verbatim>\<open>%\<close> are not negative, where it agrees with \<open>mod\<close>.
\<close>

definition handleNext :: "app_state \<Rightarrow> nat \<Rightarrow> effect list" where
  "handleNext s pick =
     (let len = int (length (tracks s)) in
      if len = 0 then []
      else if shuffle s then
        (let next = int pick;
             next = (if len > 1 \<and> Some next = currentIndex s then (next + 1) mod len else next)
         in [SetCurrentIndex (Some next), SetIsPlaying True])
      else (case currentIndex s of
              None \<Rightarrow> []
            | Some c \<Rightarrow>
                (let nextIndex = c + 1 in
                 if nextIndex \<ge> len then
                   (if repeatMode s = RepeatAll then [SetCurrentIndex (Some 0), SetIsPlaying True]
                    else [SetIsPlaying False])
                 else [SetCurrentIndex (Some nextIndex), SetIsPlaying True])))"

text \<open>
  \<^verbatim>\<open>handlePrev\<close> (lines 227-255). \<^verbatim>\<open>audio && audio.currentTime > 5\<close> is \<open>restartsTrack\<close>.
\<close>

definition restartsTrack :: "app_state \<Rightarrow> bool" where
  "restartsTrack s = (case audioRef s of None \<Rightarrow> False | Some t \<Rightarrow> t > 5)"

definition handlePrev :: "app_state \<Rightarrow> nat \<Rightarrow> effect list" where
  "handlePrev s pick =
     (let len = int (length (tracks s)) in
      if len = 0 then []
      else if restartsTrack s then [AudioSetCurrentTime 0]
      else if shuffle s then
        (let prev = int pick;
             prev = (if len > 1 \<and> Some prev = currentIndex s then (prev + len - 1) mod len
                     else prev)
         in [SetCurrentIndex (Some prev), SetIsPlaying True])
      else (case currentIndex s of
              None \<Rightarrow> []
            | Some c \<Rightarrow>
                (let prevIndex = c - 1 in
                 if prevIndex < 0 then
                   (if repeatMode s = RepeatAll
                    then [SetCurrentIndex (Some (len - 1)), SetIsPlaying True]
                    else [SetIsPlaying False])
                 else [SetCurrentIndex (Some prevIndex), SetIsPlaying True])))"

text \<open>\<^verbatim>\<open>handleEnded\<close> (lines 260-270).\<close>

definition handleEnded :: "app_state \<Rightarrow> nat \<Rightarrow> effect list" where
  "handleEnded s pick =
     (if repeatMode s = RepeatOne then
        (case audioRef s of
           Some audio \<Rightarrow> [AudioSetCurrentTime 0, AudioPlay]
         | None \<Rightarrow> [])
      else handleNext s pick)"



definition muteClick :: "effect list" where
  "muteClick = [SetVolumeMute]"


section \<open>Sequences of events\<close>

text \<open>
  Pressing Next repeatedly: one random pick for each press (without shuffle the pick is
  not read).
\<close>

fun pressNext :: "nat list \<Rightarrow> app_state \<Rightarrow> app_state" where
  "pressNext [] s = s"
| "pressNext (p # ps) s = pressNext ps (commit s (handleNext s p))"







section \<open>Example libraries and states\<close>

definition trackA :: track where
  "trackA = \<lparr>track_id = ''1-aaaaaa'', title = ''A'', url = ''blob:a''\<rparr>"

definition trackB :: track where
  "trackB = \<lparr>track_id = ''2-bbbbbb'', title = ''B'', url = ''blob:b''\<rparr>"

definition trackC :: track where
  "trackC = \<lparr>track_id = ''3-cccccc'', title = ''C'', url = ''blob:c''\<rparr>"

definition fileA :: js_file where
  "fileA = \<lparr>file_name = ''a.mp3'', file_obj = 1\<rparr>"

definition fileB :: js_file where
  "fileB = \<lparr>file_name = ''b.mp3'', file_obj = 2\<rparr>"

definition demoTrack :: "js_file \<Rightarrow> track" where
  "demoTrack f =
     \<lparr>track_id = ''id-'' @ file_name f, title = file_name f, url = ''blob:'' @ file_name f\<rparr>"

text \<open>One track, nothing selected, shuffle switched on.\<close>

definition idle_shuffle_state :: app_state where
  "idle_shuffle_state = initial_state\<lparr>tracks := [trackA], shuffle := True\<rparr>"

text \<open>Two tracks, nothing selected, shuffle off.\<close>

definition idle_state :: app_state where
  "idle_state = initial_state\<lparr>tracks := [trackA, trackB]\<rparr>"

text \<open>
  The library \<open>[A, B, C]\<close> playing the track at index \<open>k\<close>, two seconds into it, with the
  given shuffle flag and repeat mode.
\<close>

definition playing3 :: "int \<Rightarrow> bool \<Rightarrow> repeat_mode \<Rightarrow> app_state" where
  "playing3 k sh rm =
     \<lparr>tracks = [trackA, trackB, trackC], currentIndex = Some k, isPlaying = True,
      shuffle = sh, repeatMode = rm, volume = 8 / 10, audioRef = Some 2\<rparr>"

text \<open>The library \<open>[A, B]\<close> playing the track at index \<open>0\<close> with repeat mode all.\<close>

definition playing2_all :: app_state where
  "playing2_all =
     \<lparr>tracks = [trackA, trackB], currentIndex = Some 0, isPlaying = True,
      shuffle = False, repeatMode = RepeatAll, volume = 8 / 10, audioRef = Some 2\<rparr>"



section \<open>Auxiliary facts\<close>

lemma commit_Nil [simp]: "commit s [] = s"
  by (simp add: commit_def)

lemma commit_Cons [simp]: "commit s (e # es) = commit (apply_effect e s) es"
  by (simp add: commit_def)

text \<open>Stepping forward or backward modulo a length above one never stays in place.\<close>

lemma wrap_up:
  fixes L p :: int
  assumes "1 < L" and "0 \<le> p" and "p < L"
  shows "(p + 1) mod L \<noteq> p" and "0 \<le> (p + 1) mod L" and "(p + 1) mod L < L"
proof -
  show "(p + 1) mod L \<noteq> p"
  proof (cases "p + 1 < L")
    case True
    then have "(p + 1) mod L = p + 1"
      using assms by (intro mod_pos_pos_trivial) auto
    then show ?thesis by simp
  next
    case False
    then have top: "p + 1 = L" using assms by linarith
    then have "(p + 1) mod L = 0" by simp
    then show ?thesis using assms top by linarith
  qed
  show "0 \<le> (p + 1) mod L" and "(p + 1) mod L < L"
    using assms by auto
qed

lemma wrap_down:
  fixes L p :: int
  assumes "1 < L" and "0 \<le> p" and "p < L"
  shows "(p + L - 1) mod L \<noteq> p" and "0 \<le> (p + L - 1) mod L" and "(p + L - 1) mod L < L"
    and "(p + L - 1) mod L = (p - 1) mod L"
proof -
  have shift: "(p + L - 1) mod L = (p - 1 + L) mod L"
    by (simp add: algebra_simps)
  show "(p + L - 1) mod L \<noteq> p"
  proof (cases "p = 0")
    case True
    have "(L - 1) mod L = L - 1"
      using assms by (intro mod_pos_pos_trivial) auto
    then show ?thesis using True assms by auto
  next
    case False
    note shift
    also have "(p - 1 + L) mod L = (p - 1) mod L" by (rule mod_add_self2)
    also have "\<dots> = p - 1"
      using assms False by (intro mod_pos_pos_trivial) auto
    finally show ?thesis by simp
  qed
  show "0 \<le> (p + L - 1) mod L" and "(p + L - 1) mod L < L"
    using assms by auto
  show "(p + L - 1) mod L = (p - 1) mod L"
    using shift by simp
qed

text \<open>Filtering out one position is taking what is before it and what is after it.\<close>

lemma filter_enumerate:
  "map snd (filter (\<lambda>(i, _). int i \<noteq> int j) (enumerate n xs)) =
     (if j < n then xs else take (j - n) xs @ drop (Suc (j - n)) xs)"
proof (induction xs arbitrary: n)
  case Nil
  then show ?case by simp
next
  case (Cons x xs)
  show ?case
  proof (cases "j < n")
    case True
    then show ?thesis using Cons.IH [of "Suc n"] by simp
  next
    case False
    show ?thesis
    proof (cases "j = n")
      case True
      then show ?thesis using Cons.IH [of "Suc n"] by simp
    next
      case ne: False
      with False have le: "Suc n \<le> j" by simp
      then have "j - n = Suc (j - Suc n)" by simp
      then show ?thesis using Cons.IH [of "Suc n"] False ne le by simp
    qed
  qed
qed

lemma filterIndex_take_drop:
  "0 \<le> j \<Longrightarrow> filterIndex j xs = take (nat j) xs @ drop (Suc (nat j)) xs"
  using filter_enumerate [of "nat j" 0 xs] by (simp add: filterIndex_def)


section \<open>Nothing selected\<close>

text \<open>
  Claim C1 says that with \<open>currentIndex\<close> none, Next, Previous and Ended change neither
  \<open>currentIndex\<close> nor \<open>isPlaying\<close>, whatever the shuffle flag. In \<open>handleNext\<close> the shuffle
  branch comes before the \<^verbatim>\<open>currentIndex === null\<close> guard: with one track, nothing
  selected, nothing playing and shuffle on, Next selects index 0 and starts playing.
\<close>

theorem C1_idle_shuffle_next_selects:
  "currentIndex idle_shuffle_state = None \<and> \<not> isPlaying idle_shuffle_state \<and>
   currentIndex (commit idle_shuffle_state (handleNext idle_shuffle_state 0)) = Some 0 \<and>
   isPlaying (commit idle_shuffle_state (handleNext idle_shuffle_state 0))"
  by (simp add: idle_shuffle_state_def initial_state_def handleNext_def)

text \<open>
  Claim C1, amended: with \<open>currentIndex\<close> none, \<open>handleNext\<close>, \<open>handlePrev\<close> and
  \<open>handleEnded\<close> leave \<open>currentIndex\<close> none and \<open>isPlaying\<close> as it was when shuffle is off
  or the library is empty (\<open>handlePrev\<close> also when it restarts the track after five
  seconds, \<open>handleEnded\<close> also when the repeat mode is one). With shuffle on and a
  library that is not empty they otherwise select the random pick and set \<open>isPlaying\<close>.
\<close>

theorem C1_idle_next_prev_ended:
  assumes "currentIndex s = None"
  shows "(if shuffle s \<and> tracks s \<noteq> []
          then handleNext s pick = [SetCurrentIndex (Some (int pick)), SetIsPlaying True]
          else handleNext s pick = []) \<and>
         (if shuffle s \<and> tracks s \<noteq> [] \<and> \<not> restartsTrack s
          then handlePrev s pick = [SetCurrentIndex (Some (int pick)), SetIsPlaying True]
          else currentIndex (commit s (handlePrev s pick)) = None \<and>
               isPlaying (commit s (handlePrev s pick)) = isPlaying s) \<and>
         (if shuffle s \<and> tracks s \<noteq> [] \<and> repeatMode s \<noteq> RepeatOne
          then handleEnded s pick = [SetCurrentIndex (Some (int pick)), SetIsPlaying True]
          else currentIndex (commit s (handleEnded s pick)) = None \<and>
               isPlaying (commit s (handleEnded s pick)) = isPlaying s)"
  using assms
  by (auto simp: handleNext_def handlePrev_def handleEnded_def Let_def split: option.splits)

theorem C1_idle_next_prev_ended_witness:
  "currentIndex idle_state = None \<and>
   handleNext idle_state 0 = [] \<and>
   currentIndex (commit idle_state (handlePrev idle_state 0)) = None \<and>
   \<not> isPlaying (commit idle_state (handlePrev idle_state 0)) \<and>
   currentIndex (commit idle_state (handleEnded idle_state 0)) = None \<and>
   \<not> isPlaying (commit idle_state (handleEnded idle_state 0)) \<and>
   handleEnded idle_shuffle_state 0 = [SetCurrentIndex (Some 0), SetIsPlaying True]"
proof -
  have idle: "currentIndex idle_state = None"
    by (simp add: idle_state_def initial_state_def)
  have idle_sh: "currentIndex idle_shuffle_state = None"
    by (simp add: idle_shuffle_state_def initial_state_def)
  show ?thesis
    using C1_idle_next_prev_ended [OF idle, of 0] C1_idle_next_prev_ended [OF idle_sh, of 0]
    by (simp add: idle_state_def idle_shuffle_state_def initial_state_def)
qed

section \<open>Shuffle\<close>

text \<open>
  Claim C2: with more than one track, shuffle on and a random pick below the length,
  the index that \<open>handleNext\<close> (and \<open>handleEnded\<close>, which calls it unless the repeat mode
  is one) and \<open>handlePrev\<close> pass to \<^verbatim>\<open>setCurrentIndex\<close> is never the current index and
  lies in the library: a pick that collides with the current index is moved on by one
  modulo the length by Next and Ended, and back by one modulo the length by Previous.
  When \<open>handlePrev\<close> restarts the track instead (more than five seconds played), it
  decides no index.
\<close>

theorem C2_shuffle_no_repeat:
  assumes "length (tracks s) > 1" and "shuffle s" and "pick < length (tracks s)"
  shows "(\<exists>n. handleNext s pick = [SetCurrentIndex (Some n), SetIsPlaying True] \<and>
              n = (if currentIndex s = Some (int pick)
                   then (int pick + 1) mod int (length (tracks s)) else int pick) \<and>
              Some n \<noteq> currentIndex s \<and> 0 \<le> n \<and> n < int (length (tracks s))) \<and>
         currentIndex (commit s (handleNext s pick)) \<noteq> currentIndex s \<and>
         (repeatMode s \<noteq> RepeatOne \<longrightarrow> handleEnded s pick = handleNext s pick) \<and>
         (\<exists>m. handlePrev s pick =
                 (if restartsTrack s then [AudioSetCurrentTime 0]
                  else [SetCurrentIndex (Some m), SetIsPlaying True]) \<and>
              m = (if currentIndex s = Some (int pick)
                   then (int pick - 1) mod int (length (tracks s)) else int pick) \<and>
              Some m \<noteq> currentIndex s \<and> 0 \<le> m \<and> m < int (length (tracks s))) \<and>
         (\<not> restartsTrack s \<longrightarrow>
            currentIndex (commit s (handlePrev s pick)) \<noteq> currentIndex s)"
proof -
  let ?len = "int (length (tracks s))"
  have len: "1 < ?len" and p: "0 \<le> int pick" "int pick < ?len"
    using assms by auto
  note up = wrap_up [OF len p]
  note down = wrap_down [OF len p]
  have nx: "\<exists>n. handleNext s pick = [SetCurrentIndex (Some n), SetIsPlaying True] \<and>
              n = (if currentIndex s = Some (int pick)
                   then (int pick + 1) mod ?len else int pick) \<and>
              Some n \<noteq> currentIndex s \<and> 0 \<le> n \<and> n < ?len"
    using assms up by (auto simp: handleNext_def Let_def)
  then have nx_state: "currentIndex (commit s (handleNext s pick)) \<noteq> currentIndex s"
    by auto
  have en: "repeatMode s \<noteq> RepeatOne \<longrightarrow> handleEnded s pick = handleNext s pick"
    by (simp add: handleEnded_def)
  have pv: "\<exists>m. handlePrev s pick =
                 (if restartsTrack s then [AudioSetCurrentTime 0]
                  else [SetCurrentIndex (Some m), SetIsPlaying True]) \<and>
              m = (if currentIndex s = Some (int pick)
                   then (int pick - 1) mod ?len else int pick) \<and>
              Some m \<noteq> currentIndex s \<and> 0 \<le> m \<and> m < ?len"
  proof (cases "currentIndex s = Some (int pick)")
    case True
    then show ?thesis using assms down
      by (auto simp: handlePrev_def Let_def)
  next
    case False
    then show ?thesis using assms p
      by (auto simp: handlePrev_def Let_def)
  qed
  then have pv_state:
    "\<not> restartsTrack s \<longrightarrow> currentIndex (commit s (handlePrev s pick)) \<noteq> currentIndex s"
    by auto
  from nx nx_state en pv pv_state show ?thesis by blast
qed

theorem C2_shuffle_no_repeat_witness:
  "length (tracks (playing3 1 True RepeatOff)) > 1 \<and> shuffle (playing3 1 True RepeatOff) \<and>
   (1::nat) < length (tracks (playing3 1 True RepeatOff)) \<and>
   handleNext (playing3 1 True RepeatOff) 1 = [SetCurrentIndex (Some 2), SetIsPlaying True] \<and>
   handleEnded (playing3 1 True RepeatOff) 1 = [SetCurrentIndex (Some 2), SetIsPlaying True] \<and>
   handlePrev (playing3 1 True RepeatOff) 1 = [SetCurrentIndex (Some 0), SetIsPlaying True]"
proof -
  have h1: "length (tracks (playing3 1 True RepeatOff)) > 1"
    and h2: "shuffle (playing3 1 True RepeatOff)"
    and h3: "(1::nat) < length (tracks (playing3 1 True RepeatOff))"
    by (simp_all add: playing3_def)
  show ?thesis
    using C2_shuffle_no_repeat [OF h1 h2 h3]
    by (simp add: playing3_def restartsTrack_def)
qed

section \<open>In library order\<close>

text \<open>
  Claim C3: with a library that is not empty, shuffle off and repeat mode off,
  \<open>handleNext\<close> at the last index only sets \<open>isPlaying\<close> to false, so \<open>currentIndex\<close>
  stays at the last index; and \<open>handlePrev\<close> at index 0, when at most five seconds of the
  track have played (or no audio element is mounted), only sets \<open>isPlaying\<close> to false,
  so \<open>currentIndex\<close> stays 0.
\<close>

theorem C3_stop_at_ends:
  assumes "tracks s \<noteq> []" and "\<not> shuffle s" and "repeatMode s = RepeatOff"
  shows "(currentIndex s = Some (int (length (tracks s)) - 1) \<longrightarrow>
            handleNext s pick = [SetIsPlaying False] \<and>
            \<not> isPlaying (commit s (handleNext s pick)) \<and>
            currentIndex (commit s (handleNext s pick)) = Some (int (length (tracks s)) - 1)) \<and>
         (currentIndex s = Some 0 \<and> (\<forall>t. audioRef s = Some t \<longrightarrow> t \<le> 5) \<longrightarrow>
            handlePrev s pick = [SetIsPlaying False] \<and>
            \<not> isPlaying (commit s (handlePrev s pick)) \<and>
            currentIndex (commit s (handlePrev s pick)) = Some 0)"
  using assms
  by (auto simp: handleNext_def handlePrev_def restartsTrack_def Let_def split: option.splits)

theorem C3_stop_at_ends_witness:
  "tracks (playing3 2 False RepeatOff) \<noteq> [] \<and> \<not> shuffle (playing3 2 False RepeatOff) \<and>
   repeatMode (playing3 2 False RepeatOff) = RepeatOff \<and>
   currentIndex (playing3 2 False RepeatOff) = Some 2 \<and>
   isPlaying (playing3 2 False RepeatOff) \<and>
   \<not> isPlaying (commit (playing3 2 False RepeatOff) (handleNext (playing3 2 False RepeatOff) 0)) \<and>
   currentIndex (commit (playing3 2 False RepeatOff) (handleNext (playing3 2 False RepeatOff) 0))
     = Some 2 \<and>
   currentIndex (playing3 0 False RepeatOff) = Some 0 \<and>
   audioRef (playing3 0 False RepeatOff) = Some 2 \<and>
   \<not> isPlaying (commit (playing3 0 False RepeatOff) (handlePrev (playing3 0 False RepeatOff) 0)) \<and>
   currentIndex (commit (playing3 0 False RepeatOff) (handlePrev (playing3 0 False RepeatOff) 0))
     = Some 0"
proof -
  have h: "tracks (playing3 k False RepeatOff) \<noteq> []" "\<not> shuffle (playing3 k False RepeatOff)"
    "repeatMode (playing3 k False RepeatOff) = RepeatOff" for k
    by (simp_all add: playing3_def)
  have last: "currentIndex (playing3 2 False RepeatOff) =
                Some (int (length (tracks (playing3 2 False RepeatOff))) - 1)"
    by (simp add: playing3_def)
  have first: "currentIndex (playing3 0 False RepeatOff) = Some 0 \<and>
               (\<forall>t. audioRef (playing3 0 False RepeatOff) = Some t \<longrightarrow> t \<le> 5)"
    by (simp add: playing3_def)
  show ?thesis
    using C3_stop_at_ends [OF h [of 2], of 0] C3_stop_at_ends [OF h [of 0], of 0] last first
    by (simp add: playing3_def)
qed

text \<open>One press of Next with repeat mode all, and any number of presses.\<close>

lemma next_all_step:
  assumes "tracks s \<noteq> []" and "\<not> shuffle s" and "repeatMode s = RepeatAll"
    and "currentIndex s = Some i" and "0 \<le> i" and "i < int (length (tracks s))"
  shows "handleNext s pick =
           [SetCurrentIndex (Some ((i + 1) mod int (length (tracks s)))), SetIsPlaying True]"
proof (cases "i + 1 < int (length (tracks s))")
  case True
  then have "(i + 1) mod int (length (tracks s)) = i + 1"
    using assms by (intro mod_pos_pos_trivial) auto
  then show ?thesis using assms True by (simp add: handleNext_def Let_def)
next
  case False
  then have "i + 1 = int (length (tracks s))" using assms by linarith
  then have "(i + 1) mod int (length (tracks s)) = 0" by simp
  then show ?thesis using assms False by (simp add: handleNext_def Let_def)
qed

lemma pressNext_all:
  assumes "tracks s \<noteq> []" and "\<not> shuffle s" and "repeatMode s = RepeatAll"
    and "currentIndex s = Some i" and "0 \<le> i" and "i < int (length (tracks s))"
  shows "tracks (pressNext picks s) = tracks s \<and>
         currentIndex (pressNext picks s) =
           Some ((i + int (length picks)) mod int (length (tracks s))) \<and>
         (picks \<noteq> [] \<longrightarrow> isPlaying (pressNext picks s))"
  using assms
proof (induction picks arbitrary: s i)
  case Nil
  then show ?case by simp
next
  case (Cons p ps)
  let ?L = "int (length (tracks s))"
  let ?s = "commit s (handleNext s p)"
  have st: "?s = s\<lparr>currentIndex := Some ((i + 1) mod ?L), isPlaying := True\<rparr>"
    using next_all_step [OF Cons.prems, of p] by simp
  have L: "0 < ?L" using Cons.prems by simp
  have ih: "tracks (pressNext ps ?s) = tracks ?s \<and>
         currentIndex (pressNext ps ?s) =
           Some (((i + 1) mod ?L + int (length ps)) mod int (length (tracks ?s))) \<and>
         (ps \<noteq> [] \<longrightarrow> isPlaying (pressNext ps ?s))"
    using Cons.prems L by (intro Cons.IH) (simp_all add: st)
  have m: "((i + 1) mod ?L + int (length ps)) mod ?L = (i + int (length (p # ps))) mod ?L"
  proof -
    have "((i + 1) mod ?L + int (length ps)) mod ?L = ((i + 1) + int (length ps)) mod ?L"
      by (rule mod_add_left_eq)
    also have "(i + 1) + int (length ps) = i + int (length (p # ps))" by simp
    finally show ?thesis .
  qed
  have pl: "isPlaying (pressNext ps ?s)"
  proof (cases ps)
    case Nil
    then show ?thesis by (simp add: st)
  next
    case Cons
    then show ?thesis using ih by simp
  qed
  show ?case using ih m pl by (simp add: st)
qed

text \<open>
  Claim C4: with a library that is not empty, shuffle off, repeat mode all and the
  current index \<open>i\<close> inside the library, \<open>handleNext\<close> sets \<open>currentIndex\<close> to \<open>(i + 1)\<close>
  modulo the length and \<open>isPlaying\<close> to true. So any number of presses keeps playing,
  as many presses as there are tracks lead back to \<open>i\<close>, and every index is reached
  within fewer presses than there are tracks. \<open>handlePrev\<close> at index 0, when at most
  five seconds have played, sets \<open>currentIndex\<close> to the last index and \<open>isPlaying\<close> to true.
\<close>

theorem C4_repeat_all_cycles:
  assumes "tracks s \<noteq> []" and "\<not> shuffle s" and "repeatMode s = RepeatAll"
    and "currentIndex s = Some i" and "0 \<le> i" and "i < int (length (tracks s))"
  shows "handleNext s pick =
           [SetCurrentIndex (Some ((i + 1) mod int (length (tracks s)))), SetIsPlaying True] \<and>
         (\<forall>picks. picks \<noteq> [] \<longrightarrow>
            currentIndex (pressNext picks s) =
              Some ((i + int (length picks)) mod int (length (tracks s))) \<and>
            isPlaying (pressNext picks s)) \<and>
         (\<forall>picks. length picks = length (tracks s) \<longrightarrow>
            currentIndex (pressNext picks s) = Some i) \<and>
         (\<forall>j. 0 \<le> j \<and> j < int (length (tracks s)) \<longrightarrow>
            (\<exists>k < length (tracks s). currentIndex (pressNext (replicate k 0) s) = Some j)) \<and>
         (i = 0 \<and> (\<forall>t. audioRef s = Some t \<longrightarrow> t \<le> 5) \<longrightarrow>
            handlePrev s pick =
              [SetCurrentIndex (Some (int (length (tracks s)) - 1)), SetIsPlaying True])"
proof -
  let ?L = "int (length (tracks s))"
  have L: "0 < ?L" using assms by simp
  note many = pressNext_all [OF assms]
  have one: "handleNext s pick = [SetCurrentIndex (Some ((i + 1) mod ?L)), SetIsPlaying True]"
    by (rule next_all_step [OF assms])
  have cyc: "\<forall>picks. picks \<noteq> [] \<longrightarrow>
            currentIndex (pressNext picks s) = Some ((i + int (length picks)) mod ?L) \<and>
            isPlaying (pressNext picks s)"
    using many by blast
  have ret: "\<forall>picks. length picks = length (tracks s) \<longrightarrow>
            currentIndex (pressNext picks s) = Some i"
  proof (intro allI impI)
    fix picks :: "nat list"
    assume len: "length picks = length (tracks s)"
    have "(i + ?L) mod ?L = i" using assms by simp
    then show "currentIndex (pressNext picks s) = Some i"
      using many [of picks] len by simp
  qed
  have every: "\<forall>j. 0 \<le> j \<and> j < ?L \<longrightarrow>
            (\<exists>k < length (tracks s). currentIndex (pressNext (replicate k 0) s) = Some j)"
  proof (intro allI impI)
    fix j :: int
    assume j: "0 \<le> j \<and> j < ?L"
    define k where "k = nat ((j - i) mod ?L)"
    have k0: "0 \<le> (j - i) mod ?L" and k1: "(j - i) mod ?L < ?L" using L by auto
    have kl: "k < length (tracks s)" using k0 k1 by (simp add: k_def nat_less_iff)
    have "(i + int k) mod ?L = (i + (j - i) mod ?L) mod ?L" using k0 by (simp add: k_def)
    also have "\<dots> = (i + (j - i)) mod ?L" by (rule mod_add_right_eq)
    also have "\<dots> = j" using j by simp
    finally have "currentIndex (pressNext (replicate k 0) s) = Some j"
      using many [of "replicate k 0"] by simp
    then show "\<exists>k < length (tracks s). currentIndex (pressNext (replicate k 0) s) = Some j"
      using kl by blast
  qed
  have prev: "i = 0 \<and> (\<forall>t. audioRef s = Some t \<longrightarrow> t \<le> 5) \<longrightarrow>
            handlePrev s pick = [SetCurrentIndex (Some (?L - 1)), SetIsPlaying True]"
    using assms
    by (auto simp: handlePrev_def restartsTrack_def Let_def split: option.splits)
  from one cyc ret every prev show ?thesis by blast
qed

theorem C4_repeat_all_cycles_witness:
  "tracks playing2_all \<noteq> [] \<and> \<not> shuffle playing2_all \<and> repeatMode playing2_all = RepeatAll \<and>
   currentIndex playing2_all = Some 0 \<and> (0::int) < int (length (tracks playing2_all)) \<and>
   audioRef playing2_all = Some 2 \<and>
   handleNext playing2_all 0 = [SetCurrentIndex (Some 1), SetIsPlaying True] \<and>
   currentIndex (pressNext [0, 0, 0] playing2_all) = Some 1 \<and>
   isPlaying (pressNext [0, 0, 0] playing2_all) \<and>
   currentIndex (pressNext [0, 0] playing2_all) = Some 0 \<and>
   handlePrev playing2_all 0 = [SetCurrentIndex (Some 1), SetIsPlaying True]"
proof -
  have h: "tracks playing2_all \<noteq> []" "\<not> shuffle playing2_all"
    "repeatMode playing2_all = RepeatAll" "currentIndex playing2_all = Some 0"
    "(0::int) \<le> 0" "0 < int (length (tracks playing2_all))"
    by (simp_all add: playing2_all_def)
  have a: "audioRef playing2_all = Some 2" and l: "length (tracks playing2_all) = 2"
    by (simp_all add: playing2_all_def)
  from C4_repeat_all_cycles [OF h, of 0]
  have one: "handleNext playing2_all 0 =
               [SetCurrentIndex (Some ((0 + 1) mod int (length (tracks playing2_all)))),
                SetIsPlaying True]"
    and cyc: "\<And>picks. picks \<noteq> [] \<Longrightarrow>
               currentIndex (pressNext picks playing2_all) =
                 Some ((0 + int (length picks)) mod int (length (tracks playing2_all))) \<and>
               isPlaying (pressNext picks playing2_all)"
    and ret: "\<And>picks. length picks = length (tracks playing2_all) \<Longrightarrow>
               currentIndex (pressNext picks playing2_all) = Some 0"
    and prev: "0 = (0::int) \<and> (\<forall>t. audioRef playing2_all = Some t \<longrightarrow> t \<le> 5) \<longrightarrow>
               handlePrev playing2_all 0 =
                 [SetCurrentIndex (Some (int (length (tracks playing2_all)) - 1)),
                  SetIsPlaying True]"
    by blast+
  show ?thesis
    using h a one cyc [of "[0, 0, 0]"] ret [of "[0, 0]"] prev
    by (simp add: l)
qed

section \<open>Repeat one\<close>

text \<open>
  Claim C5: with repeat mode one, \<open>handleEnded\<close> calls no state setter. With the audio
  element mounted it sets \<^verbatim>\<open>audio.currentTime = 0\<close> and then calls \<^verbatim>\<open>audio.play()\<close>, and
  does nothing else (nothing at all without an audio element). The library,
  \<open>currentIndex\<close>, \<open>isPlaying\<close>, \<open>shuffle\<close>, \<open>repeatMode\<close> and \<open>volume\<close> are unchanged, and
  what it does depends neither on the library nor on the random pick.
\<close>

theorem C5_repeat_one_restarts:
  assumes "repeatMode s = RepeatOne"
  shows "(audioRef s \<noteq> None \<longrightarrow> handleEnded s pick = [AudioSetCurrentTime 0, AudioPlay]) \<and>
         (audioRef s = None \<longrightarrow> handleEnded s pick = []) \<and>
         commit s (handleEnded s pick) = s\<lparr>audioRef := map_option (\<lambda>_. 0) (audioRef s)\<rparr> \<and>
         tracks (commit s (handleEnded s pick)) = tracks s \<and>
         currentIndex (commit s (handleEnded s pick)) = currentIndex s \<and>
         isPlaying (commit s (handleEnded s pick)) = isPlaying s \<and>
         shuffle (commit s (handleEnded s pick)) = shuffle s \<and>
         repeatMode (commit s (handleEnded s pick)) = repeatMode s \<and>
         volume (commit s (handleEnded s pick)) = volume s \<and>
         handleEnded (s\<lparr>tracks := ts\<rparr>) pick' = handleEnded s pick"
  using assms
  by (auto simp: handleEnded_def split: option.splits)

theorem C5_repeat_one_restarts_witness:
  "repeatMode (playing3 0 False RepeatOne) = RepeatOne \<and>
   handleEnded (playing3 0 False RepeatOne) 0 = [AudioSetCurrentTime 0, AudioPlay] \<and>
   currentIndex (commit (playing3 0 False RepeatOne) (handleEnded (playing3 0 False RepeatOne) 0))
     = Some 0 \<and>
   audioRef (commit (playing3 0 False RepeatOne) (handleEnded (playing3 0 False RepeatOne) 0))
     = Some 0"
proof -
  have h: "repeatMode (playing3 0 False RepeatOne) = RepeatOne"
    by (simp add: playing3_def)
  show ?thesis
    using C5_repeat_one_restarts [OF h, of 0 "[]" 0]
    by (simp add: playing3_def)
qed

section \<open>Removing a track\<close>

text \<open>
  Claim C6: with a current index \<open>i\<close>, \<open>handleRemove\<close> at the index \<open>j\<close> of a track of the
  library (in client-only mode, or in server mode once the DELETE request has resolved)
  removes the track at \<open>j\<close> and keeps the others in their order; for \<open>j < i\<close> the
  current index becomes \<open>i - 1\<close> and \<open>isPlaying\<close> is unchanged; for \<open>j = i\<close> the current
  index becomes none and \<open>isPlaying\<close> false; for \<open>j > i\<close> both are unchanged.
\<close>

theorem C6_remove_rebases_index:
  assumes "currentIndex s = Some i" and "0 \<le> j" and "j < int (length (tracks s))"
    and "API_BASE = '''' \<or> deleted"
  shows "tracks (commit s (handleRemove API_BASE s deleted j)) =
           take (nat j) (tracks s) @ drop (Suc (nat j)) (tracks s) \<and>
         (j < i \<longrightarrow> currentIndex (commit s (handleRemove API_BASE s deleted j)) = Some (i - 1) \<and>
                    isPlaying (commit s (handleRemove API_BASE s deleted j)) = isPlaying s) \<and>
         (j = i \<longrightarrow> currentIndex (commit s (handleRemove API_BASE s deleted j)) = None \<and>
                    \<not> isPlaying (commit s (handleRemove API_BASE s deleted j))) \<and>
         (j > i \<longrightarrow> currentIndex (commit s (handleRemove API_BASE s deleted j)) = Some i \<and>
                    isPlaying (commit s (handleRemove API_BASE s deleted j)) = isPlaying s)"
  using assms
  by (auto simp: handleRemove_def trackAt_def filterIndex_take_drop)

theorem C6_remove_rebases_index_witness:
  "currentIndex (playing3 1 False RepeatOff) = Some 1 \<and>
   tracks (playing3 1 False RepeatOff) = [trackA, trackB, trackC] \<and>
   tracks (commit (playing3 1 False RepeatOff) (handleRemove '''' (playing3 1 False RepeatOff) False 0))
     = [trackB, trackC] \<and>
   currentIndex (commit (playing3 1 False RepeatOff) (handleRemove '''' (playing3 1 False RepeatOff) False 0))
     = Some 0 \<and>
   isPlaying (commit (playing3 1 False RepeatOff) (handleRemove '''' (playing3 1 False RepeatOff) False 0)) \<and>
   tracks (commit (playing3 1 False RepeatOff) (handleRemove ''http://localhost:4000'' (playing3 1 False RepeatOff) True 1))
     = [trackA, trackC] \<and>
   currentIndex (commit (playing3 1 False RepeatOff) (handleRemove ''http://localhost:4000'' (playing3 1 False RepeatOff) True 1))
     = None \<and>
   \<not> isPlaying (commit (playing3 1 False RepeatOff) (handleRemove ''http://localhost:4000'' (playing3 1 False RepeatOff) True 1)) \<and>
   tracks (commit (playing3 1 False RepeatOff) (handleRemove '''' (playing3 1 False RepeatOff) False 2))
     = [trackA, trackB] \<and>
   currentIndex (commit (playing3 1 False RepeatOff) (handleRemove '''' (playing3 1 False RepeatOff) False 2))
     = Some 1 \<and>
   isPlaying (commit (playing3 1 False RepeatOff) (handleRemove '''' (playing3 1 False RepeatOff) False 2))"
proof -
  let ?s = "playing3 1 False RepeatOff"
  have c: "currentIndex ?s = Some 1" and t: "tracks ?s = [trackA, trackB, trackC]"
    and p: "isPlaying ?s"
    by (simp_all add: playing3_def)
  have l: "(0::int) < int (length (tracks ?s))" "(1::int) < int (length (tracks ?s))"
    "(2::int) < int (length (tracks ?s))"
    by (simp_all add: t)
  have client: "('''' :: string) = '''' \<or> False" and server: "''http://localhost:4000'' = '''' \<or> True"
    by simp_all
  show ?thesis
    using C6_remove_rebases_index [OF c _ l(1) client]
      C6_remove_rebases_index [OF c _ l(2) server]
      C6_remove_rebases_index [OF c _ l(3) client] c t p
    by (simp add: numeral_2_eq_2)
qed

section \<open>The selection stays inside the library\<close>


text \<open>In client-only mode the mount effect returns at once: the library starts empty.\<close>

lemma loadLibrary_client: "commit initial_state (loadLibrary '''' response) = initial_state"
  by (simp add: loadLibrary_def)













section \<open>The first upload\<close>

text \<open>
  Claim C8: \<open>handleUpload\<close> with nothing selected and an empty library, given at least one
  file (in server mode: a resolved upload that created at least one track), makes the
  new tracks the library, sets \<open>currentIndex\<close> to 0 and does not touch \<open>isPlaying\<close>;
  \<open>handleSelect\<close> with an index inside the library sets \<open>currentIndex\<close> to it and
  \<open>isPlaying\<close> to true.
\<close>

theorem C8_first_upload_selects:
  assumes "currentIndex s = None" and "tracks s = []" and "files \<noteq> []"
    and "API_BASE = '''' \<and> new = map mkTrack files \<or>
         API_BASE \<noteq> '''' \<and> response = Some new \<and> new \<noteq> []"
  shows "tracks (commit s (handleUpload API_BASE s files mkTrack response)) = new \<and>
         currentIndex (commit s (handleUpload API_BASE s files mkTrack response)) = Some 0 \<and>
         isPlaying (commit s (handleUpload API_BASE s files mkTrack response)) = isPlaying s \<and>
         (\<forall>s' index. 0 \<le> index \<and> index < int (length (tracks s')) \<longrightarrow>
            currentIndex (commit s' (handleSelect s' index)) = Some index \<and>
            isPlaying (commit s' (handleSelect s' index)))"
  using assms
  by (auto simp: handleUpload_def handleSelect_def Let_def)

theorem C8_first_upload_selects_witness:
  "currentIndex initial_state = None \<and> tracks initial_state = [] \<and> [fileA, fileB] \<noteq> [] \<and>
   \<not> isPlaying initial_state \<and>
   tracks (commit initial_state (handleUpload '''' initial_state [fileA, fileB] demoTrack None))
     = [demoTrack fileA, demoTrack fileB] \<and>
   currentIndex (commit initial_state (handleUpload '''' initial_state [fileA, fileB] demoTrack None))
     = Some 0 \<and>
   \<not> isPlaying (commit initial_state (handleUpload '''' initial_state [fileA, fileB] demoTrack None)) \<and>
   currentIndex (commit idle_state (handleSelect idle_state 1)) = Some 1 \<and>
   isPlaying (commit idle_state (handleSelect idle_state 1))"
proof -
  have h: "currentIndex initial_state = None" "tracks initial_state = []"
    "[fileA, fileB] \<noteq> []"
    "('''' :: string) = '''' \<and> [demoTrack fileA, demoTrack fileB] = map demoTrack [fileA, fileB] \<or>
     ('''' :: string) \<noteq> '''' \<and> None = Some [demoTrack fileA, demoTrack fileB] \<and>
       [demoTrack fileA, demoTrack fileB] \<noteq> []"
    by (simp_all add: initial_state_def)
  have i: "(0::int) \<le> 1 \<and> 1 < int (length (tracks idle_state))"
    by (simp add: idle_state_def)
  have p: "\<not> isPlaying initial_state"
    by (simp add: initial_state_def)
  from C8_first_upload_selects [OF h]
  have up: "tracks (commit initial_state (handleUpload '''' initial_state [fileA, fileB] demoTrack None))
              = [demoTrack fileA, demoTrack fileB]"
    "currentIndex (commit initial_state (handleUpload '''' initial_state [fileA, fileB] demoTrack None))
              = Some 0"
    "isPlaying (commit initial_state (handleUpload '''' initial_state [fileA, fileB] demoTrack None))
              = isPlaying initial_state"
    and sel: "\<And>s' index. 0 \<le> index \<and> index < int (length (tracks s')) \<Longrightarrow>
            currentIndex (commit s' (handleSelect s' index)) = Some index \<and>
            isPlaying (commit s' (handleSelect s' index))"
    by blast+
  show ?thesis
    using h(1-3) p up sel [OF i] by simp
qed

section \<open>Failures that change nothing\<close>

text \<open>
  Claim C9: in server mode, when the DELETE request of \<open>handleRemove\<close> rejects, no state
  setter is called: the library, \<open>currentIndex\<close>, \<open>isPlaying\<close> and the rest of the state
  are as before. \<open>handleSelect\<close> with an index below 0 or not below the length returns
  at once: it calls no setter and raises nothing.
\<close>

theorem C9_failed_delete_and_bad_select:
  assumes "API_BASE \<noteq> ''''"
  shows "handleRemove API_BASE s False index = [] \<and>
         commit s (handleRemove API_BASE s False index) = s \<and>
         (\<forall>k. k < 0 \<or> k \<ge> int (length (tracks s)) \<longrightarrow>
            handleSelect s k = [] \<and> commit s (handleSelect s k) = s)"
  using assms
  by (auto simp: handleRemove_def handleSelect_def split: option.splits)

theorem C9_failed_delete_and_bad_select_witness:
  "''http://localhost:4000'' \<noteq> '''' \<and>
   trackAt (tracks (playing3 1 False RepeatOff)) 1 = Some trackB \<and>
   commit (playing3 1 False RepeatOff)
     (handleRemove ''http://localhost:4000'' (playing3 1 False RepeatOff) False 1)
     = playing3 1 False RepeatOff \<and>
   (3::int) \<ge> int (length (tracks (playing3 1 False RepeatOff))) \<and>
   commit (playing3 1 False RepeatOff) (handleSelect (playing3 1 False RepeatOff) 3)
     = playing3 1 False RepeatOff \<and>
   commit (playing3 1 False RepeatOff) (handleSelect (playing3 1 False RepeatOff) (- 1))
     = playing3 1 False RepeatOff"
proof -
  let ?s = "playing3 1 False RepeatOff"
  have h: "''http://localhost:4000'' \<noteq> ''''" by simp
  have t: "trackAt (tracks ?s) 1 = Some trackB"
    and k3: "(3::int) < 0 \<or> 3 \<ge> int (length (tracks ?s))"
    and km: "(- 1::int) < 0 \<or> - 1 \<ge> int (length (tracks ?s))"
    by (simp_all add: playing3_def trackAt_def)
  from C9_failed_delete_and_bad_select [OF h, of ?s 1]
  have rm: "commit ?s (handleRemove ''http://localhost:4000'' ?s False 1) = ?s"
    and sel: "\<And>k. k < 0 \<or> k \<ge> int (length (tracks ?s)) \<Longrightarrow> commit ?s (handleSelect ?s k) = ?s"
    by blast+
  show ?thesis
    using h t rm sel [OF k3] sel [OF km] k3 by simp
qed

section \<open>The mute button\<close>

text \<open>
  Claim C10: for a volume above 0, a click on the mute button sets the volume to 0, and
  a second click sets it to 0.8, not to the volume before: the two clicks give the
  volume back exactly when it was 0.8.
\<close>

theorem C10_mute_forgets_volume:
  assumes "volume s > 0"
  shows "volume (commit s muteClick) = 0 \<and>
         volume (commit (commit s muteClick) muteClick) = 8 / 10 \<and>
         (volume (commit (commit s muteClick) muteClick) = volume s \<longleftrightarrow> volume s = 8 / 10)"
  using assms
  by (auto simp: muteClick_def muteToggle_def)

theorem C10_mute_forgets_volume_witness:
  "volume (initial_state\<lparr>volume := 1 / 2\<rparr>) > 0 \<and>
   volume (commit (initial_state\<lparr>volume := 1 / 2\<rparr>) muteClick) = 0 \<and>
   volume (commit (commit (initial_state\<lparr>volume := 1 / 2\<rparr>) muteClick) muteClick) = 8 / 10 \<and>
   volume (commit (commit (initial_state\<lparr>volume := 1 / 2\<rparr>) muteClick) muteClick)
     \<noteq> volume (initial_state\<lparr>volume := 1 / 2\<rparr>)"
proof -
  have h: "volume (initial_state\<lparr>volume := 1 / 2\<rparr>) > 0" by simp
  show ?thesis
    using C10_mute_forgets_volume [OF h] by simp
qed

end
